theory Spec2Isabelle
  imports Main "HOL-Library.Signed_Division"
begin

section \<open>Geometry\<close>

text \<open>
  The coordinate type \<open>DefaultDim\<close> is a C++ \<open>int\<close>, modelled by \<open>int\<close> (signed
  overflow is undefined behaviour in C++ and is not modelled). \<open>Point\<close> and
  \<open>DisplayPoint\<close> hold the same pair of coordinates and differ only in the coordinate
  space they are meant for; both are \<open>point\<close> here.
\<close>

datatype point = Point (point_x: int) (point_y: int)

datatype dims = Size (width: int) (height: int)

datatype rect = Rect (rect_point: point) (rect_size: dims)

instantiation point :: ab_group_add
begin

definition zero_point :: point where
  "zero_point = Point 0 0"

definition plus_point :: "point \<Rightarrow> point \<Rightarrow> point" where
  "plus_point p q = Point (point_x p + point_x q) (point_y p + point_y q)"

definition minus_point :: "point \<Rightarrow> point \<Rightarrow> point" where
  "minus_point p q = Point (point_x p - point_x q) (point_y p - point_y q)"

definition uminus_point :: "point \<Rightarrow> point" where
  "uminus_point p = Point (- point_x p) (- point_y p)"

instance
  by standard
    (simp_all add: zero_point_def plus_point_def minus_point_def uminus_point_def)

end

text \<open>
  Modelled from the spec: the rectangle primitives of \<open>egt/geometry.h\<close>
  (emptiness, intersection, containment of a point) and the overloads of
  \<open>Widget::to_child\<close> and \<open>Widget::to_parent\<close> on rectangles of \<open>egt/widget.h\<close>,
  neither of which is under src/. A rectangle covers the pixels
  \<open>x \<le> a < x + width\<close>, \<open>y \<le> b < y + height\<close>; it is empty when it covers none.
\<close>

definition rect_empty :: "rect \<Rightarrow> bool" where
  "rect_empty r = (width (rect_size r) \<le> 0 \<or> height (rect_size r) \<le> 0)"

definition rect_points :: "rect \<Rightarrow> (int \<times> int) set" where
  "rect_points r =
     {(a, b). point_x (rect_point r) \<le> a \<and> a < point_x (rect_point r) + width (rect_size r) \<and>
              point_y (rect_point r) \<le> b \<and> b < point_y (rect_point r) + height (rect_size r)}"

definition intersection :: "rect \<Rightarrow> rect \<Rightarrow> rect" where
  "intersection lhs rhs =
     (let x = max (point_x (rect_point lhs)) (point_x (rect_point rhs));
          y = max (point_y (rect_point lhs)) (point_y (rect_point rhs));
          w = min (point_x (rect_point lhs) + width (rect_size lhs))
                  (point_x (rect_point rhs) + width (rect_size rhs)) - x;
          h = min (point_y (rect_point lhs) + height (rect_size lhs))
                  (point_y (rect_point rhs) + height (rect_size rhs)) - y
      in if w < 0 \<or> h < 0 then Rect (Point 0 0) (Size 0 0)
         else Rect (Point x y) (Size w h))"


section \<open>The widget tree (widget.cpp)\<close>

text \<open>
  Widgets are C++ objects that point at each other (\<open>m_parent\<close>, \<open>m_children\<close>); the
  model keeps them in a store indexed by an object identity \<open>wid\<close>. A null pointer
  is \<open>None\<close>.
\<close>

type_synonym wid = nat

datatype flag =
    PlaneWindow | Window | Frame | Disabled | Readonly | Active | Invisible
  | GrabMouse | NoClip | NoLayout | NoAutoresize | Checked

datatype color_id =
    ColorCursor | ColorBg | ColorText | ColorTextHighlight | ColorBorder
  | ColorButtonBg | ColorButtonFg | ColorButtonText | ColorLabelBg | ColorLabelText

datatype group_id = GroupNormal | GroupActive | GroupDisabled | GroupChecked

text \<open>
  A \<open>Pattern\<close> and a \<open>Font\<close> are opaque values to the widget; a palette holds the
  patterns that were \<open>set\<close> for a colour id and a group (\<open>Palette::exists\<close> is the
  lookup).
\<close>

type_synonym pattern = nat

type_synonym font = string

type_synonym palette = "color_id \<times> group_id \<rightharpoonup> pattern"

record widget =
  m_box :: rect
  m_user_requested_box :: rect
  m_widget_flags :: "flag set"
  m_parent :: "wid option"
  m_children :: "wid list"
  m_in_draw :: bool
  m_in_layout :: bool
  m_damage :: "rect list"
  m_palette :: "palette option"
  m_font :: "font option"
  has_screen :: bool

text \<open>
  The field \<open>has_screen\<close> stands for the virtual \<open>has_screen()\<close>, true for the
  widgets that are directly backed by a screen. The list \<open>calls\<close> is not a variable
  of the program: it records, in order, every entry into
  \<open>Widget::damage(const Rect&)\<close> and every layout pass that is started, so that
  "no damage call" and "two damage events" can be stated.
\<close>

datatype call = DamageCall wid rect | LayoutCall wid

record state =
  widgets :: "wid \<Rightarrow> widget"
  global_palette :: "palette option"
  global_font :: "font option"
  theme_palette :: palette
  theme_font :: font
  mouse_grab :: "wid option"
  calls :: "call list"

text \<open>
  A failed \<open>assert\<close> aborts the program and a \<open>throw\<close> leaves the function at once;
  both are the left summand of the result, together with the state at that moment.
  A call that does not return (a walk up a cyclic parent chain) is \<open>None\<close>.
\<close>

datatype error = AssertionFailed | RuntimeError string

type_synonym 'a res = "(error \<times> state) + 'a"

definition ok :: "'a \<Rightarrow> 'a res option" where
  "ok x = Some (Inr x)"

definition bnd :: "'a res option \<Rightarrow> ('a \<Rightarrow> 'b res option) \<Rightarrow> 'b res option" where
  "bnd m f = (case m of None \<Rightarrow> None | Some (Inl e) \<Rightarrow> Some (Inl e) | Some (Inr x) \<Rightarrow> f x)"

datatype event_id =
    raw_pointer_down | raw_pointer_up | raw_pointer_move | pointer_click
  | pointer_dblclick | pointer_hold | pointer_drag_start | pointer_drag
  | pointer_drag_stop | keyboard_down | keyboard_up | keyboard_repeat | other_event

record event =
  ev_id :: event_id
  ev_quit :: bool
  ev_pointer_point :: point

text \<open>
  What the widget calls and widget.cpp does not define:
  \<^item> \<open>ndebug\<close>: the program is built with \<open>NDEBUG\<close>, so \<open>assert\<close> is compiled out;
  \<^item> \<open>damage_algorithm\<close>: \<open>Screen::damage_algorithm\<close>, which merges a rectangle
    into a dirty set;
  \<^item> \<open>palette_color\<close>: \<open>Palette::color(id, group)\<close>;
  \<^item> \<open>layout\<close>: the virtual \<open>layout()\<close> of a widget (the pass of widget.cpp needs
    \<open>detail::align_algorithm\<close>, which is not under src/);
  \<^item> \<open>on_hide\<close>, \<open>on_show\<close>: the callbacks registered on the two signals;
  \<^item> \<open>invoke_handlers\<close>: the event handlers registered on a widget;
  \<^item> \<open>child_handle\<close>: the virtual \<open>handle(event)\<close> of a child.
\<close>

record env =
  ndebug :: bool
  damage_algorithm :: "rect list \<Rightarrow> rect \<Rightarrow> rect list"
  palette_color :: "palette \<Rightarrow> color_id \<Rightarrow> group_id \<Rightarrow> pattern"
  layout :: "wid \<Rightarrow> state \<Rightarrow> state res option"
  on_hide :: "wid \<Rightarrow> state \<Rightarrow> state res option"
  on_show :: "wid \<Rightarrow> state \<Rightarrow> state res option"
  invoke_handlers :: "wid \<Rightarrow> state \<times> event \<Rightarrow> (state \<times> event) res option"
  child_handle :: "wid \<Rightarrow> state \<times> event \<Rightarrow> (state \<times> event) res option"

subsection \<open>Accessors\<close>

definition box :: "state \<Rightarrow> wid \<Rightarrow> rect" where
  "box st w = m_box (widgets st w)"

definition point :: "state \<Rightarrow> wid \<Rightarrow> point" where
  "point st w = rect_point (m_box (widgets st w))"

definition parent :: "state \<Rightarrow> wid \<Rightarrow> wid option" where
  "parent st w = m_parent (widgets st w)"

definition is_set :: "state \<Rightarrow> wid \<Rightarrow> flag \<Rightarrow> bool" where
  "is_set st w f = (f \<in> m_widget_flags (widgets st w))"

definition visible :: "state \<Rightarrow> wid \<Rightarrow> bool" where
  "visible st w = (\<not> is_set st w Invisible)"

definition disabled :: "state \<Rightarrow> wid \<Rightarrow> bool" where
  "disabled st w = is_set st w Disabled"

definition active :: "state \<Rightarrow> wid \<Rightarrow> bool" where
  "active st w = is_set st w Active"

definition checked :: "state \<Rightarrow> wid \<Rightarrow> bool" where
  "checked st w = is_set st w Checked"

definition update :: "state \<Rightarrow> wid \<Rightarrow> (widget \<Rightarrow> widget) \<Rightarrow> state" where
  "update st w f = st\<lparr>widgets := (widgets st)(w := f (widgets st w))\<rparr>"

definition flags_set :: "state \<Rightarrow> wid \<Rightarrow> flag \<Rightarrow> state" where
  "flags_set st w f = update st w (\<lambda>d. d\<lparr>m_widget_flags := insert f (m_widget_flags d)\<rparr>)"

definition flags_clear :: "state \<Rightarrow> wid \<Rightarrow> flag \<Rightarrow> state" where
  "flags_clear st w f = update st w (\<lambda>d. d\<lparr>m_widget_flags := m_widget_flags d - {f}\<rparr>)"

definition record_call :: "call \<Rightarrow> state \<Rightarrow> state" where
  "record_call c st = st\<lparr>calls := calls st @ [c]\<rparr>"

subsection \<open>Coordinate spaces\<close>

text \<open>\<open>Point Widget::to_parent(const Point& r) const\<close>, and the rectangle overloads.\<close>

definition to_parent :: "state \<Rightarrow> wid \<Rightarrow> point \<Rightarrow> point" where
  "to_parent st w r = (case parent st w of Some p \<Rightarrow> r + point st p | None \<Rightarrow> r)"

definition to_parent_rect :: "state \<Rightarrow> wid \<Rightarrow> rect \<Rightarrow> rect" where
  "to_parent_rect st w r = Rect (to_parent st w (rect_point r)) (rect_size r)"

definition to_child_rect :: "state \<Rightarrow> wid \<Rightarrow> rect \<Rightarrow> rect" where
  "to_child_rect st w r = Rect (rect_point r - point st w) (rect_size r)"

text \<open>
  The three walks to the root are \<open>while (par)\<close> loops; each is a function of the
  pointer \<open>par\<close> and the accumulated point.
\<close>

partial_function (option) display_origin_loop ::
  "state \<Rightarrow> wid option \<Rightarrow> point \<Rightarrow> point option" where
  "display_origin_loop st par p =
     (case par of
        None \<Rightarrow> Some p
      | Some a \<Rightarrow>
          display_origin_loop st (parent st a)
            (p + Point (point_x (point st a)) (point_y (point st a))))"

definition display_origin :: "state \<Rightarrow> wid \<Rightarrow> point option" where
  "display_origin st w =
     display_origin_loop st (parent st w) (Point (point_x (point st w)) (point_y (point st w)))"

partial_function (option) local_to_display_loop ::
  "state \<Rightarrow> wid option \<Rightarrow> point \<Rightarrow> point option" where
  "local_to_display_loop st par p2 =
     (case par of
        None \<Rightarrow> Some p2
      | Some a \<Rightarrow>
          local_to_display_loop st (parent st a)
            (p2 + Point (point_x (point st a)) (point_y (point st a))))"

definition local_to_display :: "state \<Rightarrow> wid \<Rightarrow> point \<Rightarrow> point option" where
  "local_to_display st w p =
     map_option (\<lambda>p2. p2 + Point (point_x (point st w)) (point_y (point st w)))
       (local_to_display_loop st (parent st w) (Point (point_x p) (point_y p)))"

partial_function (option) display_to_local_loop ::
  "state \<Rightarrow> wid option \<Rightarrow> point \<Rightarrow> point option" where
  "display_to_local_loop st par p2 =
     (case par of
        None \<Rightarrow> Some p2
      | Some a \<Rightarrow> display_to_local_loop st (parent st a) (p2 - point st a))"

definition display_to_local :: "state \<Rightarrow> wid \<Rightarrow> point \<Rightarrow> point option" where
  "display_to_local st w p =
     map_option (\<lambda>p2. p2 - point st w)
       (display_to_local_loop st (parent st w) (Point (point_x p) (point_y p)))"

subsection \<open>Damage\<close>

text \<open>
  \<open>assert(c)\<close> aborts when \<open>c\<close> is false, unless the program is built with
  \<open>NDEBUG\<close>.
\<close>

definition assert_fails :: "env \<Rightarrow> bool \<Rightarrow> bool" where
  "assert_fails E c = (\<not> ndebug E \<and> \<not> c)"

definition add_damage :: "env \<Rightarrow> state \<Rightarrow> wid \<Rightarrow> rect \<Rightarrow> state res option" where
  "add_damage E st w r =
     (if assert_fails E (has_screen (widgets st w)) then Some (Inl (AssertionFailed, st))
      else if \<not> has_screen (widgets st w) then ok st
      else if rect_empty r then ok st
      else if assert_fails E (\<not> m_in_draw (widgets st w)) then Some (Inl (AssertionFailed, st))
      else if m_in_draw (widgets st w) then ok st
      else
        (let r' = intersection r (to_child_rect st w (box st w))
         in ok (update st w (\<lambda>d. d\<lparr>m_damage := damage_algorithm E (m_damage d) r'\<rparr>))))"

text \<open>
  Modelled from the spec: \<open>damage_from_child\<close>, a virtual function declared in
  \<open>egt/widget.h\<close>, which is not under src/; the damage a child forwards is damage of
  the parent ("forwarded to the parent"). It is the recursive call below.
\<close>

partial_function (option) damage_rect :: "env \<Rightarrow> state \<Rightarrow> wid \<Rightarrow> rect \<Rightarrow> state res option" where
  "damage_rect E st w r =
     (let st0 = record_call (DamageCall w r) st
      in if rect_empty r then Some (Inr st0)
         else if \<not> visible st0 w then Some (Inr st0)
         else if \<not> has_screen (widgets st0 w) then
           (case parent st0 w of
              Some p \<Rightarrow> damage_rect E st0 p (to_parent_rect st0 w r)
            | None \<Rightarrow> Some (Inr st0))
         else add_damage E st0 w r)"

text \<open>\<open>void Widget::damage()\<close>\<close>

definition damage :: "env \<Rightarrow> state \<Rightarrow> wid \<Rightarrow> state res option" where
  "damage E st w = damage_rect E st w (box st w)"

subsection \<open>Geometry changes, visibility, parent\<close>

definition parent_in_layout :: "state \<Rightarrow> wid \<Rightarrow> bool" where
  "parent_in_layout st w =
     (case parent st w of Some p \<Rightarrow> m_in_layout (widgets st p) | None \<Rightarrow> False)"

definition call_layout :: "env \<Rightarrow> state \<Rightarrow> wid \<Rightarrow> state res option" where
  "call_layout E st w = layout E w (record_call (LayoutCall w) st)"

definition parent_layout :: "env \<Rightarrow> state \<Rightarrow> wid \<Rightarrow> state res option" where
  "parent_layout E st w =
     (if \<not> visible st w then ok st
      else if is_set st w NoLayout then ok st
      else case parent st w of Some p \<Rightarrow> call_layout E st p | None \<Rightarrow> ok st)"

definition move :: "env \<Rightarrow> state \<Rightarrow> wid \<Rightarrow> point \<Rightarrow> state res option" where
  "move E st w pt =
     (if pt \<noteq> rect_point (box st w) then
        bnd (damage E st w) (\<lambda>st1.
          let st2 = update st1 w (\<lambda>d. d\<lparr>m_box := Rect pt (rect_size (m_box d))\<rparr>)
          in bnd (damage E st2 w) (\<lambda>st3.
               let st4 = (if \<not> parent_in_layout st3 w
                          then update st3 w (\<lambda>d. d\<lparr>m_user_requested_box :=
                                 Rect pt (rect_size (m_user_requested_box d))\<rparr>)
                          else st3)
               in parent_layout E st4 w))
      else ok st)"

definition resize :: "env \<Rightarrow> state \<Rightarrow> wid \<Rightarrow> dims \<Rightarrow> state res option" where
  "resize E st w sz =
     (if sz \<noteq> rect_size (box st w) then
        bnd (damage E st w) (\<lambda>st1.
          let st2 = update st1 w (\<lambda>d. d\<lparr>m_box := Rect (rect_point (m_box d)) sz\<rparr>)
          in bnd (damage E st2 w) (\<lambda>st3.
               let st4 = (if \<not> parent_in_layout st3 w \<and> \<not> m_in_layout (widgets st3 w)
                          then update st3 w (\<lambda>d. d\<lparr>m_user_requested_box :=
                                 Rect (rect_point (m_user_requested_box d)) sz\<rparr>)
                          else st3)
               in bnd (parent_layout E st4 w) (\<lambda>st5.
                    if m_children (widgets st5 w) \<noteq> [] then call_layout E st5 w
                    else ok st5)))
      else ok st)"

definition hide :: "env \<Rightarrow> state \<Rightarrow> wid \<Rightarrow> state res option" where
  "hide E st w =
     (if is_set st w Invisible then ok st
      else bnd (damage E st w) (\<lambda>st1. on_hide E w (flags_set st1 w Invisible)))"

definition show_widget :: "env \<Rightarrow> state \<Rightarrow> wid \<Rightarrow> state res option" where
  "show_widget E st w =
     (if \<not> is_set st w Invisible then ok st
      else bnd (damage E (flags_clear st w Invisible) w) (on_show E w))"


definition set_parent :: "env \<Rightarrow> state \<Rightarrow> wid \<Rightarrow> wid option \<Rightarrow> state res option" where
  "set_parent E st w par =
     (if assert_fails E (m_parent (widgets st w) = None) then Some (Inl (AssertionFailed, st))
      else if m_parent (widgets st w) \<noteq> None
        then Some (Inl (RuntimeError ''widget already has a parent'', st))
      else if par = Some w
        then Some (Inl (RuntimeError ''cannot add a widget to itself'', st))
      else damage E (update st w (\<lambda>d. d\<lparr>m_parent := par\<rparr>)) w)"

subsection \<open>Colour and font resolution\<close>

text \<open>\<open>const Pattern& Widget::color(Palette::ColorId id, Palette::GroupId group) const\<close>\<close>

partial_function (option) color_group ::
  "env \<Rightarrow> state \<Rightarrow> wid \<Rightarrow> color_id \<Rightarrow> group_id \<Rightarrow> pattern option" where
  "color_group E st w cid grp =
     (case (case m_palette (widgets st w) of
              Some pal \<Rightarrow> pal (cid, grp)
            | None \<Rightarrow> None) of
        Some color \<Rightarrow> Some color
      | None \<Rightarrow>
          (case parent st w of
             Some p \<Rightarrow> color_group E st p cid grp
           | None \<Rightarrow>
               (case global_palette st of
                  Some gp \<Rightarrow> Some (palette_color E gp cid grp)
                | None \<Rightarrow> Some (palette_color E (theme_palette st) cid grp))))"

text \<open>\<open>const Pattern& Widget::color(Palette::ColorId id) const\<close>\<close>

definition color :: "env \<Rightarrow> state \<Rightarrow> wid \<Rightarrow> color_id \<Rightarrow> pattern option" where
  "color E st w cid =
     (let grp = GroupNormal;
          grp = (if disabled st w then GroupDisabled
                   else if active st w then GroupActive
                   else if checked st w then GroupChecked
                   else grp)
      in color_group E st w cid grp)"

text \<open>\<open>const Font& Widget::font() const\<close>\<close>

partial_function (option) font :: "state \<Rightarrow> wid \<Rightarrow> font option" where
  "font st w =
     (case m_font (widgets st w) of
        Some f \<Rightarrow> Some f
      | None \<Rightarrow>
          (case parent st w of
             Some p \<Rightarrow> font st p
           | None \<Rightarrow>
               (case global_font st of
                  Some gf \<Rightarrow> Some gf
                | None \<Rightarrow> Some (theme_font st))))"

subsection \<open>Event dispatch\<close>










text \<open>
  The parent chain of a widget in a well-formed tree: its ancestors, the nearest
  first, up to a widget without parent.
\<close>

inductive chain :: "state \<Rightarrow> wid \<Rightarrow> wid list \<Rightarrow> bool" where
  chain_root: "parent st w = None \<Longrightarrow> chain st w []"
| chain_step: "parent st w = Some p \<Longrightarrow> chain st p ps \<Longrightarrow> chain st w (p # ps)"

text \<open>
  Two states have the same tree when they differ at most in the dirty sets of the
  widgets and in the record of calls: the parent pointers, child lists, boxes, flags
  and the process-wide holders are the same.
\<close>

definition same_tree :: "state \<Rightarrow> state \<Rightarrow> bool" where
  "same_tree st st' =
     ((\<forall>a. widgets st' a = (widgets st a)\<lparr>m_damage := m_damage (widgets st' a)\<rparr>) \<and>
      global_palette st' = global_palette st \<and> global_font st' = global_font st \<and>
      theme_palette st' = theme_palette st \<and> theme_font st' = theme_font st \<and>
      mouse_grab st' = mouse_grab st)"

text \<open>The widget a recorded call is made on.\<close>

fun call_target :: "call \<Rightarrow> wid" where
  "call_target (DamageCall w r) = w"
| "call_target (LayoutCall w) = w"

subsection \<open>A small tree\<close>

text \<open>
  A window 0 that is backed by a screen, a frame 1 inside it, two overlapping children
  2 and 3 of the frame, and widgets that are not attached (every other identity).
\<close>

definition blank :: widget where
  "blank = \<lparr>m_box = Rect (Point 0 0) (Size 0 0),
            m_user_requested_box = Rect (Point 0 0) (Size 0 0),
            m_widget_flags = {}, m_parent = None, m_children = [],
            m_in_draw = False, m_in_layout = False, m_damage = [],
            m_palette = None, m_font = None, has_screen = False\<rparr>"

definition demo_widgets :: "wid \<Rightarrow> widget" where
  "demo_widgets =
     (\<lambda>a. blank)
     (0 := blank\<lparr>m_box := Rect (Point 0 0) (Size 800 480), m_children := [1],
                 m_widget_flags := {Window}, has_screen := True,
                 m_font := Some ''sans''\<rparr>,
      1 := blank\<lparr>m_box := Rect (Point 10 20) (Size 200 100), m_parent := Some 0,
                 m_children := [2, 3], m_widget_flags := {Frame},
                 m_palette := Some [(ColorBg, GroupNormal) \<mapsto> 7]\<rparr>,
      2 := blank\<lparr>m_box := Rect (Point 0 0) (Size 50 50), m_parent := Some 1\<rparr>,
      3 := blank\<lparr>m_box := Rect (Point 25 25) (Size 50 50), m_parent := Some 1,
                 m_widget_flags := {GrabMouse}\<rparr>)"

definition demo_state :: state where
  "demo_state = \<lparr>widgets = demo_widgets, global_palette = None, global_font = None,
                 theme_palette = [(ColorBg, GroupNormal) \<mapsto> 1, (ColorText, GroupNormal) \<mapsto> 2],
                 theme_font = ''Courier New'', mouse_grab = None, calls = []\<rparr>"

text \<open>
  An environment in which the dirty set is the list of the rectangles added to it, a
  palette answers 0 for a colour it does not hold, and nothing is registered on the
  signals; a child handles an event by stopping it when the child is widget 2.
\<close>

definition demo_env :: env where
  "demo_env = \<lparr>ndebug = False,
               damage_algorithm = (\<lambda>d r. d @ [r]),
               palette_color = (\<lambda>pal cid grp. case pal (cid, grp) of Some c \<Rightarrow> c | None \<Rightarrow> 0),
               layout = (\<lambda>w st. ok st),
               on_hide = (\<lambda>w st. ok st),
               on_show = (\<lambda>w st. ok st),
               invoke_handlers = (\<lambda>w se. ok se),
               child_handle = (\<lambda>c se. ok (fst se, (snd se)\<lparr>ev_quit := (c = 2)\<rparr>))\<rparr>"

subsection \<open>The specification's wording of resolution and delivery\<close>

text \<open>
  The specification describes colour resolution as a chain: the widget's own palette
  entry, else the parent's resolution, else the global palette if it is set, else the
  palette of the theme. \<open>spec_color\<close> is this chain over the widget and its ancestors,
  nearest first; \<open>spec_font\<close> is the same chain for fonts, and \<open>state_group\<close> is the
  precedence of the state groups.
\<close>

definition own_color :: "state \<Rightarrow> wid \<Rightarrow> color_id \<Rightarrow> group_id \<Rightarrow> pattern option" where
  "own_color st a cid grp =
     (case m_palette (widgets st a) of Some pal \<Rightarrow> pal (cid, grp) | None \<Rightarrow> None)"

fun spec_color :: "env \<Rightarrow> state \<Rightarrow> wid list \<Rightarrow> color_id \<Rightarrow> group_id \<Rightarrow> pattern" where
  "spec_color E st [] cid grp =
     (case global_palette st of
        Some gp \<Rightarrow> palette_color E gp cid grp
      | None \<Rightarrow> palette_color E (theme_palette st) cid grp)"
| "spec_color E st (a # path) cid grp =
     (case own_color st a cid grp of
        Some c \<Rightarrow> c
      | None \<Rightarrow> spec_color E st path cid grp)"

fun spec_font :: "state \<Rightarrow> wid list \<Rightarrow> font" where
  "spec_font st [] = (case global_font st of Some gf \<Rightarrow> gf | None \<Rightarrow> theme_font st)"
| "spec_font st (a # path) =
     (case m_font (widgets st a) of Some f \<Rightarrow> f | None \<Rightarrow> spec_font st path)"

definition state_group :: "state \<Rightarrow> wid \<Rightarrow> group_id" where
  "state_group st w =
     (if disabled st w then GroupDisabled
      else if active st w then GroupActive
      else if checked st w then GroupChecked
      else GroupNormal)"





text \<open>
  The damage calls that one \<open>damage(r)\<close> on \<open>w\<close> makes along the ancestors \<open>ps\<close> of
  \<open>w\<close>: the call on \<open>w\<close> itself and, as long as the rectangle is not empty and the
  widget is visible and has no screen, the call forwarded to the parent.
\<close>

fun damage_trace :: "state \<Rightarrow> wid \<Rightarrow> rect \<Rightarrow> wid list \<Rightarrow> call list" where
  "damage_trace st w r [] = [DamageCall w r]"
| "damage_trace st w r (p # ps) =
     DamageCall w r #
       (if rect_empty r \<or> \<not> visible st w \<or> has_screen (widgets st w) then []
        else damage_trace st p (to_parent_rect st w r) ps)"

section \<open>Sprite frame-strip addressing (sprite.cpp)\<close>

text \<open>
  The C++ \<open>int\<close> has 32 bits. It is modelled by the integers of the range
  \<open>-2^31 ..< 2^31\<close>, and every sum and product of the code is wrapped into that range
  by \<open>int32\<close> (two's complement). The operators \<open>/\<close> and \<open>%\<close> of C++ truncate towards
  zero: they are \<open>sdiv\<close> and \<open>smod\<close>. A division by zero stops the program.
\<close>

definition int32 :: "int \<Rightarrow> int" where
  "int32 x = (x + 2 ^ 31) mod 2 ^ 32 - 2 ^ 31"

definition in_int32 :: "int \<Rightarrow> bool" where
  "in_int32 x = (- (2 ^ 31) \<le> x \<and> x < 2 ^ 31)"

datatype sprite_error = DivisionByZero

text \<open>
  The block that computes \<open>panx\<close> and \<open>pany\<close> occurs, letter for letter, in
  \<open>HardwareSprite::show_frame\<close>, \<open>HardwareSprite::surface\<close> and
  \<open>SoftwareSprite::draw\<close>:

  \<^verbatim>\<open>int panx = framex + (m_index * m_frame.w);
  int pany = framey;
  if (panx + m_frame.w >= imagew) {
      int x = framex + (m_index * m_frame.w);
      panx = (x % imagew);
      pany = ((x / imagew) * framey) + (x / imagew) * m_frame.h;
  }\<close>
\<close>

definition pan_position ::
  "int \<Rightarrow> int \<Rightarrow> int \<Rightarrow> int \<Rightarrow> int \<Rightarrow> int \<Rightarrow> sprite_error + (int \<times> int)" where
  "pan_position imagew framex framey frame_w frame_h index =
     (let panx = int32 (framex + int32 (index * frame_w));
          pany = framey
      in if int32 (panx + frame_w) \<ge> imagew then
           (let x = int32 (framex + int32 (index * frame_w))
            in if imagew = 0 then Inl DivisionByZero
               else Inr (x smod imagew,
                         int32 (int32 (int32 (x sdiv imagew) * framey)
                                + int32 (int32 (x sdiv imagew) * frame_h))))
         else Inr (panx, pany))"

text \<open>
  The arithmetic of a frame does not overflow: the offset
  \<open>framex + index * frame_w\<close> and the right edge of the frame fit into an \<open>int\<close>
  (\<open>offset_fits\<close>), and so do the products and the sum of the row computation
  (\<open>row_fits\<close>).
\<close>

definition offset_fits :: "int \<Rightarrow> int \<Rightarrow> int \<Rightarrow> bool" where
  "offset_fits framex frame_w index =
     (in_int32 (index * frame_w) \<and> in_int32 (framex + index * frame_w) \<and>
      in_int32 (framex + index * frame_w + frame_w))"

definition row_fits :: "int \<Rightarrow> int \<Rightarrow> int \<Rightarrow> int \<Rightarrow> int \<Rightarrow> int \<Rightarrow> bool" where
  "row_fits imagew framex framey frame_w frame_h index =
     (let q = (framex + index * frame_w) sdiv imagew
      in in_int32 q \<and> in_int32 (q * framey) \<and> in_int32 (q * frame_h) \<and>
         in_int32 (q * framey + q * frame_h))"

record strip =
  framecount :: int
  framex :: int
  framey :: int

text \<open>
  The hardware sprite: the sheet image's width, the frame size, the strip in use
  (\<open>m_strips[m_strip]\<close>), the frame index, and the overlay plane's pan registers with
  the number of \<open>plane_apply\<close> calls made.
\<close>

record hardware_sprite =
  hs_image_w :: int
  hs_frame_w :: int
  hs_frame_h :: int
  hs_strip :: strip
  hs_index :: int
  plane_pan_pos :: "int \<times> int"
  plane_pan_size :: "int \<times> int"
  plane_applied :: nat

definition hw_show_frame :: "hardware_sprite \<Rightarrow> int \<Rightarrow> sprite_error + hardware_sprite" where
  "hw_show_frame s index =
     (if index \<noteq> hs_index s then
        (let s1 = s\<lparr>hs_index := index\<rparr>
         in case pan_position (hs_image_w s1) (framex (hs_strip s1)) (framey (hs_strip s1))
                   (hs_frame_w s1) (hs_frame_h s1) (hs_index s1) of
              Inl e \<Rightarrow> Inl e
            | Inr pan \<Rightarrow>
                Inr (s1\<lparr>plane_pan_pos := pan,
                        plane_pan_size := (hs_frame_w s1, hs_frame_h s1),
                        plane_applied := Suc (plane_applied s1)\<rparr>))
      else Inr s)"

definition hw_is_last_frame :: "hardware_sprite \<Rightarrow> bool" where
  "hw_is_last_frame s = (hs_index s \<ge> int32 (framecount (hs_strip s) - 1))"

definition hw_advance :: "hardware_sprite \<Rightarrow> sprite_error + hardware_sprite" where
  "hw_advance s =
     (let index = int32 (hs_index s + 1);
          index = (if index \<ge> framecount (hs_strip s) then 0 else index)
      in hw_show_frame s index)"

text \<open>
  The software sprite; \<open>draw\<close> issues one \<open>draw_image\<close> of the source rectangle
  \<open>(panx, pany, frame.w, frame.h)\<close> at the widget's position.
\<close>

record software_sprite =
  ss_image_w :: int
  ss_framex :: int
  ss_framey :: int
  ss_frame_w :: int
  ss_frame_h :: int
  ss_index :: int
  ss_framecount :: int
  ss_box_point :: "int \<times> int"

datatype draw_op = DrawImage "int \<times> int \<times> int \<times> int" "int \<times> int"

definition sw_draw :: "software_sprite \<Rightarrow> sprite_error + draw_op" where
  "sw_draw s =
     (case pan_position (ss_image_w s) (ss_framex s) (ss_framey s)
             (ss_frame_w s) (ss_frame_h s) (ss_index s) of
        Inl e \<Rightarrow> Inl e
      | Inr (panx, pany) \<Rightarrow>
          Inr (DrawImage (panx, pany, ss_frame_w s, ss_frame_h s) (ss_box_point s)))"

section \<open>Lemmas\<close>

lemma bnd_ok [simp]: "bnd (ok x) f = f x"
  by (simp add: bnd_def ok_def)

lemma bnd_Some_Inr [simp]: "bnd (Some (Inr x)) f = f x"
  by (simp add: bnd_def)

lemma bnd_Some_Inl [simp]: "bnd (Some (Inl e)) f = Some (Inl e)"
  by (simp add: bnd_def)

lemma bnd_None [simp]: "bnd None f = None"
  by (simp add: bnd_def)

lemma widgets_record_call [simp]: "widgets (record_call c st) = widgets st"
  by (simp add: record_call_def)

lemma calls_record_call [simp]: "calls (record_call c st) = calls st @ [c]"
  by (simp add: record_call_def)

lemma accessors_record_call [simp]:
  "visible (record_call c st) w = visible st w"
  "parent (record_call c st) w = parent st w"
  "box (record_call c st) w = box st w"
  "point (record_call c st) w = point st w"
  by (simp_all add: visible_def is_set_def parent_def box_def point_def)

lemma rects_record_call [simp]:
  "to_parent_rect (record_call c st) w r = to_parent_rect st w r"
  "to_child_rect (record_call c st) w r = to_child_rect st w r"
  by (simp_all add: to_parent_rect_def to_parent_def to_child_rect_def split: option.split)

lemma rect_points_intersection:
  "rect_points (intersection a b) = rect_points a \<inter> rect_points b"
  by (auto simp: rect_points_def intersection_def Let_def)

lemma damage_rect_unfold:
  "damage_rect E st w r =
     (let st0 = record_call (DamageCall w r) st
      in if rect_empty r \<or> \<not> visible st w then ok st0
         else if has_screen (widgets st w) then add_damage E st0 w r
         else case parent st w of
                None \<Rightarrow> ok st0
              | Some p \<Rightarrow> damage_rect E st0 p (to_parent_rect st w r))"
  by (subst damage_rect.simps) (simp add: Let_def ok_def split: option.split)

lemma same_tree_refl [simp]: "same_tree st st"
  by (simp add: same_tree_def)

lemma same_tree_trans: "same_tree a b \<Longrightarrow> same_tree b c \<Longrightarrow> same_tree a c"
  unfolding same_tree_def
  by (metis (no_types, lifting) widget.surjective widget.update_convs(8))

lemma same_tree_record_call [simp]: "same_tree st (record_call c st)"
  by (simp add: same_tree_def record_call_def)

lemma same_tree_parent: "same_tree st st' \<Longrightarrow> parent st' a = parent st a"
  unfolding same_tree_def parent_def
  by (metis (no_types, lifting) widget.select_convs(4) widget.surjective widget.update_convs(8))

lemma add_damage_same_tree:
  "add_damage E st w r = Some (Inr st') \<Longrightarrow> same_tree st st'"
  by (auto simp: add_damage_def ok_def same_tree_def update_def Let_def split: if_splits)

lemma damage_rect_same_tree:
  "damage_rect E st w r = Some y \<Longrightarrow> y = Inr st' \<Longrightarrow> same_tree st st'"
proof (induction arbitrary: st'
    rule: damage_rect.raw_induct [rotated 1, consumes 1, case_names step])
  case (step f E st w r y)
  let ?st0 = "record_call (DamageCall w r) st"
  note IH = step(1) and body = step(2) and y = \<open>y = Inr st'\<close>
  have s0: "same_tree st ?st0" by simp
  show ?case
  proof (cases "rect_empty r \<or> \<not> visible st w")
    case True
    with body have "y = Inr ?st0" by (auto simp: Let_def split: if_splits)
    with y s0 show ?thesis by simp
  next
    case False
    show ?thesis
    proof (cases "has_screen (widgets st w)")
      case True
      with False body have "add_damage E ?st0 w r = Some y" by (simp add: Let_def)
      with y have "same_tree ?st0 st'" by (simp add: add_damage_same_tree)
      with s0 show ?thesis by (rule same_tree_trans)
    next
      case nos: False
      show ?thesis
      proof (cases "parent st w")
        case None
        with False nos body have "y = Inr ?st0" by (simp add: Let_def)
        with y s0 show ?thesis by simp
      next
        case (Some p)
        with False nos body have "f E ?st0 p (to_parent_rect st w r) = Some y"
          by (simp add: Let_def)
        then have "same_tree ?st0 st'" using y by (rule IH)
        with s0 show ?thesis by (rule same_tree_trans)
      qed
    qed
  qed
qed

lemma demo_widgets_simps [simp]:
  "demo_widgets 0 = blank\<lparr>m_box := Rect (Point 0 0) (Size 800 480), m_children := [1],
                 m_widget_flags := {Window}, has_screen := True, m_font := Some ''sans''\<rparr>"
  "demo_widgets (Suc 0) = blank\<lparr>m_box := Rect (Point 10 20) (Size 200 100), m_parent := Some 0,
                 m_children := [2, 3], m_widget_flags := {Frame},
                 m_palette := Some [(ColorBg, GroupNormal) \<mapsto> 7]\<rparr>"
  "demo_widgets 2 = blank\<lparr>m_box := Rect (Point 0 0) (Size 50 50), m_parent := Some 1\<rparr>"
  "demo_widgets 3 = blank\<lparr>m_box := Rect (Point 25 25) (Size 50 50), m_parent := Some 1,
                 m_widget_flags := {GrabMouse}\<rparr>"
  "demo_widgets 4 = blank"
  by (simp_all add: demo_widgets_def)

section \<open>Theorems: geometry changes, damage and the parent pointer\<close>

text \<open>
  Claim C2. For every widget \<open>w\<close>, \<open>move\<close> to the point the box already has and
  \<open>resize\<close> to the size the box already has return the very state they were called
  in, one after the other as well: no widget field changes, and the record of calls
  is the same, so that no damage call and no layout pass was made. This holds for
  every layout pass, dirty-set algorithm and registered callback.
\<close>

theorem noop_geometry_change:
  "move E st w (rect_point (box st w)) = Some (Inr st) \<and>
   resize E st w (rect_size (box st w)) = Some (Inr st) \<and>
   bnd (move E st w (rect_point (box st w)))
       (\<lambda>st'. resize E st' w (rect_size (box st' w))) = Some (Inr st)"
  by (simp add: move_def resize_def ok_def)

text \<open>
  Claim C1. For every widget \<open>w\<close> and rectangle \<open>r\<close>, \<open>damage(r)\<close>
  \<^item> changes nothing but the record of the call when \<open>r\<close> is empty or \<open>w\<close> is
    invisible;
  \<^item> when \<open>w\<close> has no screen and has a parent \<open>p\<close>, is the damage of \<open>p\<close> with the
    rectangle translated by \<open>to_parent\<close>;
  \<^item> when \<open>w\<close> has neither a screen nor a parent, changes nothing but the record of
    the call;
  \<^item> when \<open>w\<close> has a screen (and no draw is in progress), merges into the dirty set
    of \<open>w\<close> the intersection of \<open>r\<close> with the box of \<open>w\<close> in local coordinates, a
    rectangle that covers no pixel outside that box.
\<close>

theorem damage_cases:
  "(rect_empty r \<or> \<not> visible st w \<longrightarrow>
      damage_rect E st w r = Some (Inr (record_call (DamageCall w r) st))) \<and>
   (\<not> rect_empty r \<and> visible st w \<and> \<not> has_screen (widgets st w) \<and> parent st w = Some p \<longrightarrow>
      damage_rect E st w r =
        damage_rect E (record_call (DamageCall w r) st) p (to_parent_rect st w r)) \<and>
   (\<not> rect_empty r \<and> visible st w \<and> \<not> has_screen (widgets st w) \<and> parent st w = None \<longrightarrow>
      damage_rect E st w r = Some (Inr (record_call (DamageCall w r) st))) \<and>
   (\<not> rect_empty r \<and> visible st w \<and> has_screen (widgets st w) \<and> \<not> m_in_draw (widgets st w) \<longrightarrow>
      damage_rect E st w r =
        Some (Inr (update (record_call (DamageCall w r) st) w
          (\<lambda>d. d\<lparr>m_damage := damage_algorithm E (m_damage d)
                   (intersection r (to_child_rect st w (box st w)))\<rparr>))) \<and>
      rect_points (intersection r (to_child_rect st w (box st w)))
        \<subseteq> rect_points (to_child_rect st w (box st w)))"
  by (simp add: damage_rect_unfold [of E st w r] Let_def ok_def add_damage_def
      assert_fails_def rect_points_intersection)

text \<open>
  Claim C4, as the code has it. While the in-draw flag of a widget is set,
  \<open>add_damage\<close> on it never changes the state, so nothing is merged into the dirty
  set. The call returns, with the state as it was, when the program is built with
  \<open>NDEBUG\<close>, and also when the widget has a screen and the rectangle is empty (the
  test for an empty rectangle comes before the assertion); in every other case it
  is a failed assertion, which aborts the program. For a visible widget with a
  screen and a non-empty rectangle, \<open>damage\<close> is this \<open>add_damage\<close>: a failed
  assertion unless the program is built with \<open>NDEBUG\<close>, and then a request that is
  dropped.
\<close>

theorem add_damage_in_draw:
  assumes "m_in_draw (widgets st w)"
  shows "add_damage E st w r =
           (if ndebug E \<or> (has_screen (widgets st w) \<and> rect_empty r) then Some (Inr st)
            else Some (Inl (AssertionFailed, st))) \<and>
         (visible st w \<and> has_screen (widgets st w) \<and> \<not> rect_empty r \<longrightarrow>
            damage_rect E st w r =
              (if ndebug E then Some (Inr (record_call (DamageCall w r) st))
               else Some (Inl (AssertionFailed, record_call (DamageCall w r) st))))"
proof -
  have a: "add_damage E s w r =
           (if ndebug E \<or> (has_screen (widgets s w) \<and> rect_empty r) then Some (Inr s)
            else Some (Inl (AssertionFailed, s)))" if "m_in_draw (widgets s w)" for s
    using that by (simp add: add_damage_def assert_fails_def ok_def)
  have "m_in_draw (widgets (record_call (DamageCall w r) st) w)" using assms by simp
  from a [OF this] a [OF assms] show ?thesis
    by (simp add: damage_rect_unfold [of E st w r] Let_def)
qed

theorem add_damage_in_draw_witness:
  "m_in_draw (widgets (update demo_state 0 (\<lambda>d. d\<lparr>m_in_draw := True\<rparr>)) 0) \<and>
   visible (update demo_state 0 (\<lambda>d. d\<lparr>m_in_draw := True\<rparr>)) 0 \<and>
   has_screen (widgets (update demo_state 0 (\<lambda>d. d\<lparr>m_in_draw := True\<rparr>)) 0) \<and>
   \<not> rect_empty (Rect (Point 0 0) (Size 10 10)) \<and>
   add_damage demo_env (update demo_state 0 (\<lambda>d. d\<lparr>m_in_draw := True\<rparr>)) 0
       (Rect (Point 0 0) (Size 10 10))
     = Some (Inl (AssertionFailed, update demo_state 0 (\<lambda>d. d\<lparr>m_in_draw := True\<rparr>))) \<and>
   add_damage demo_env (update demo_state 0 (\<lambda>d. d\<lparr>m_in_draw := True\<rparr>)) 0
       (Rect (Point 0 0) (Size 0 0))
     = Some (Inr (update demo_state 0 (\<lambda>d. d\<lparr>m_in_draw := True\<rparr>))) \<and>
   damage_rect demo_env (update demo_state 0 (\<lambda>d. d\<lparr>m_in_draw := True\<rparr>)) 0
       (Rect (Point 0 0) (Size 10 10))
     = Some (Inl (AssertionFailed,
         record_call (DamageCall 0 (Rect (Point 0 0) (Size 10 10)))
           (update demo_state 0 (\<lambda>d. d\<lparr>m_in_draw := True\<rparr>))))"
proof -
  let ?st = "update demo_state 0 (\<lambda>d. d\<lparr>m_in_draw := True\<rparr>)"
  let ?r = "Rect (Point 0 0) (Size 10 10)"
  let ?e = "Rect (Point 0 0) (Size 0 0)"
  have a: "m_in_draw (widgets ?st 0)" by (simp add: update_def)
  have b: "has_screen (widgets ?st 0)"
    by (simp add: update_def demo_state_def blank_def)
  have v: "visible ?st 0"
    by (simp add: visible_def is_set_def update_def demo_state_def blank_def)
  have c: "\<not> rect_empty ?r" "rect_empty ?e" by (simp_all add: rect_empty_def)
  have nd: "\<not> ndebug demo_env" by (simp add: demo_env_def)
  from add_damage_in_draw [OF a, of demo_env ?r] b v c nd
  have 1: "add_damage demo_env ?st 0 ?r = Some (Inl (AssertionFailed, ?st))"
    and 3: "damage_rect demo_env ?st 0 ?r
              = Some (Inl (AssertionFailed, record_call (DamageCall 0 ?r) ?st))"
    by simp_all
  from add_damage_in_draw [OF a, of demo_env ?e] b c
  have 2: "add_damage demo_env ?st 0 ?e = Some (Inr ?st)" by simp
  from a v b c 1 2 3 show ?thesis by simp
qed

text \<open>
  Claim C4 as the specification words it does not hold: in a program built with
  \<open>NDEBUG\<close>, damage requested on the window 0 while it is being drawn is not fatal;
  the call returns normally, with the state as it was.
\<close>

theorem add_damage_in_draw_counterexample:
  "damage_rect (demo_env\<lparr>ndebug := True\<rparr>)
       (update demo_state 0 (\<lambda>d. d\<lparr>m_in_draw := True\<rparr>)) 0 (Rect (Point 0 0) (Size 10 10))
     = Some (Inr (record_call (DamageCall 0 (Rect (Point 0 0) (Size 10 10)))
                    (update demo_state 0 (\<lambda>d. d\<lparr>m_in_draw := True\<rparr>))))"
  by (simp add: damage_rect_unfold Let_def add_damage_def assert_fails_def ok_def
      update_def demo_state_def demo_env_def blank_def rect_empty_def visible_def is_set_def
      record_call_def)

text \<open>
  Claim C5. \<open>set_parent\<close> on a widget that already has a parent fails, by the
  assertion when assertions are compiled in and by the exception "widget already has
  a parent" otherwise; \<open>set_parent\<close> of a widget to itself fails by the exception
  "cannot add a widget to itself". In both cases the state at the failure is the state
  of the call: nothing was changed. After a widget was given a parent, giving it
  another one, without detaching it first, fails in the first way.
\<close>

theorem set_parent_conflict:
  "(parent st w \<noteq> None \<longrightarrow>
      set_parent E st w par =
        Some (Inl (if ndebug E then RuntimeError ''widget already has a parent''
                   else AssertionFailed, st))) \<and>
   (parent st w = None \<and> par = Some w \<longrightarrow>
      set_parent E st w par = Some (Inl (RuntimeError ''cannot add a widget to itself'', st))) \<and>
   (set_parent E st w (Some p1) = Some (Inr st1) \<longrightarrow>
      parent st1 w = Some p1 \<and>
      set_parent E st1 w (Some p2) =
        Some (Inl (if ndebug E then RuntimeError ''widget already has a parent''
                   else AssertionFailed, st1)))"
proof -
  have first: "set_parent E s w q =
        Some (Inl (if ndebug E then RuntimeError ''widget already has a parent''
                   else AssertionFailed, s))" if "parent s w \<noteq> None" for s q
    using that by (simp add: set_parent_def assert_fails_def parent_def)
  have second: "set_parent E st w par =
        Some (Inl (RuntimeError ''cannot add a widget to itself'', st))"
    if "parent st w = None \<and> par = Some w"
    using that by (simp add: set_parent_def assert_fails_def parent_def)
  have third: "parent st1 w = Some p1" if ok: "set_parent E st w (Some p1) = Some (Inr st1)"
  proof -
    let ?st = "update st w (\<lambda>d. d\<lparr>m_parent := Some p1\<rparr>)"
    from ok have "damage E ?st w = Some (Inr st1)"
      by (simp add: set_parent_def split: if_splits)
    then have "same_tree ?st st1"
      unfolding damage_def by (rule damage_rect_same_tree) simp
    then have "parent st1 w = parent ?st w" by (rule same_tree_parent)
    then show ?thesis by (simp add: parent_def update_def)
  qed
  show ?thesis
    using first [of st par] second third first [of st1 "Some p2"] by auto
qed

theorem set_parent_conflict_witness:
  "parent demo_state 2 \<noteq> None \<and>
   set_parent demo_env demo_state 2 (Some 0) = Some (Inl (AssertionFailed, demo_state)) \<and>
   parent demo_state 4 = None \<and>
   set_parent demo_env demo_state 4 (Some 4)
     = Some (Inl (RuntimeError ''cannot add a widget to itself'', demo_state)) \<and>
   set_parent demo_env demo_state 4 (Some 1)
     = Some (Inr (record_call (DamageCall 4 (Rect (Point 0 0) (Size 0 0)))
                    (update demo_state 4 (\<lambda>d. d\<lparr>m_parent := Some 1\<rparr>)))) \<and>
   set_parent demo_env
       (record_call (DamageCall 4 (Rect (Point 0 0) (Size 0 0)))
          (update demo_state 4 (\<lambda>d. d\<lparr>m_parent := Some 1\<rparr>))) 4 (Some 0)
     = Some (Inl (AssertionFailed,
          record_call (DamageCall 4 (Rect (Point 0 0) (Size 0 0)))
            (update demo_state 4 (\<lambda>d. d\<lparr>m_parent := Some 1\<rparr>))))"
proof -
  let ?st1 = "record_call (DamageCall 4 (Rect (Point 0 0) (Size 0 0)))
                (update demo_state 4 (\<lambda>d. d\<lparr>m_parent := Some 1\<rparr>))"
  have a: "parent demo_state 2 \<noteq> None"
    by (simp add: parent_def demo_state_def blank_def)
  have b: "parent demo_state 4 = None"
    by (simp add: parent_def demo_state_def blank_def)
  have c: "set_parent demo_env demo_state 4 (Some 1) = Some (Inr ?st1)"
    by (simp add: set_parent_def assert_fails_def damage_def damage_rect_unfold Let_def
        box_def update_def demo_state_def blank_def rect_empty_def ok_def)
  have nd: "\<not> ndebug demo_env" by (simp add: demo_env_def)
  from set_parent_conflict [of demo_state 2 demo_env "Some 0" 0 demo_state 0] a nd
  have 1: "set_parent demo_env demo_state 2 (Some 0) = Some (Inl (AssertionFailed, demo_state))"
    by simp
  from set_parent_conflict [of demo_state 4 demo_env "Some 4" 1 ?st1 0] b c nd
  have 2: "set_parent demo_env demo_state 4 (Some 4)
             = Some (Inl (RuntimeError ''cannot add a widget to itself'', demo_state))"
    and 3: "set_parent demo_env ?st1 4 (Some 0) = Some (Inl (AssertionFailed, ?st1))"
    by simp_all
  from a b c 1 2 3 show ?thesis by simp
qed

theorem damage_cases_witness:
  "damage_rect demo_env demo_state 2 (Rect (Point 0 0) (Size 0 0))
     = Some (Inr (record_call (DamageCall 2 (Rect (Point 0 0) (Size 0 0))) demo_state)) \<and>
   damage_rect demo_env demo_state 2 (Rect (Point 0 0) (Size 50 50))
     = damage_rect demo_env
         (record_call (DamageCall 2 (Rect (Point 0 0) (Size 50 50))) demo_state) 1
         (Rect (Point 10 20) (Size 50 50)) \<and>
   damage_rect demo_env demo_state 4 (Rect (Point 0 0) (Size 5 5))
     = Some (Inr (record_call (DamageCall 4 (Rect (Point 0 0) (Size 5 5))) demo_state)) \<and>
   damage_rect demo_env demo_state 0 (Rect (Point 700 400) (Size 200 200))
     = Some (Inr (update (record_call (DamageCall 0 (Rect (Point 700 400) (Size 200 200)))
                            demo_state) 0
          (\<lambda>d. d\<lparr>m_damage := [Rect (Point 700 400) (Size 100 80)]\<rparr>)))"
proof -
  let ?e = "Rect (Point 0 0) (Size 0 0)"
  let ?r = "Rect (Point 0 0) (Size 50 50)"
  let ?s = "Rect (Point 0 0) (Size 5 5)"
  let ?t = "Rect (Point 700 400) (Size 200 200)"
  have vis: "visible demo_state 0" "visible demo_state 2" "visible demo_state 4"
    by (simp_all add: visible_def is_set_def demo_state_def blank_def)
  have scr: "has_screen (widgets demo_state 0)" "\<not> has_screen (widgets demo_state 2)"
    "\<not> has_screen (widgets demo_state 4)" "\<not> m_in_draw (widgets demo_state 0)"
    by (simp_all add: demo_state_def blank_def)
  have par: "parent demo_state 2 = Some 1" "parent demo_state 4 = None"
    by (simp_all add: parent_def demo_state_def blank_def)
  have emp: "rect_empty ?e" "\<not> rect_empty ?r" "\<not> rect_empty ?s" "\<not> rect_empty ?t"
    by (simp_all add: rect_empty_def)
  have tp: "to_parent_rect demo_state 2 ?r = Rect (Point 10 20) (Size 50 50)"
    by (simp add: to_parent_rect_def to_parent_def par)
      (simp add: point_def demo_state_def blank_def plus_point_def)
  have inter: "intersection ?t (to_child_rect demo_state 0 (box demo_state 0))
                 = Rect (Point 700 400) (Size 100 80)"
    by (simp add: intersection_def to_child_rect_def box_def point_def demo_state_def
        blank_def minus_point_def zero_point_def Let_def)
  have 1: "damage_rect demo_env demo_state 2 ?e
             = Some (Inr (record_call (DamageCall 2 ?e) demo_state))"
    using damage_cases [where E = demo_env and st = demo_state and w = 2 and r = ?e] emp
    by simp
  have 2: "damage_rect demo_env demo_state 2 ?r
             = damage_rect demo_env (record_call (DamageCall 2 ?r) demo_state) 1
                 (Rect (Point 10 20) (Size 50 50))"
    using damage_cases [where E = demo_env and st = demo_state and w = 2 and r = ?r and p = 1]
      emp vis scr par tp by simp
  have 3: "damage_rect demo_env demo_state 4 ?s
             = Some (Inr (record_call (DamageCall 4 ?s) demo_state))"
    using damage_cases [where E = demo_env and st = demo_state and w = 4 and r = ?s]
      emp vis scr par by simp
  have 4: "damage_rect demo_env demo_state 0 ?t
             = Some (Inr (update (record_call (DamageCall 0 ?t) demo_state) 0
                  (\<lambda>d. d\<lparr>m_damage := [Rect (Point 700 400) (Size 100 80)]\<rparr>)))"
  proof -
    have "damage_rect demo_env demo_state 0 ?t
             = Some (Inr (update (record_call (DamageCall 0 ?t) demo_state) 0
                  (\<lambda>d. d\<lparr>m_damage := damage_algorithm demo_env (m_damage d)
                      (intersection ?t (to_child_rect demo_state 0 (box demo_state 0)))\<rparr>)))"
      using damage_cases [where E = demo_env and st = demo_state and w = 0 and r = ?t]
        emp vis scr by simp
    also have "update (record_call (DamageCall 0 ?t) demo_state) 0
                  (\<lambda>d. d\<lparr>m_damage := damage_algorithm demo_env (m_damage d)
                      (intersection ?t (to_child_rect demo_state 0 (box demo_state 0)))\<rparr>)
             = update (record_call (DamageCall 0 ?t) demo_state) 0
                  (\<lambda>d. d\<lparr>m_damage := [Rect (Point 700 400) (Size 100 80)]\<rparr>)"
      unfolding inter by (simp add: update_def demo_env_def demo_state_def blank_def)
    finally show ?thesis .
  qed
  from 1 2 3 4 show ?thesis by simp
qed

section \<open>Theorems: coordinate transforms and resolution along the parent chain\<close>

lemma chain_parent_cong:
  "chain st w ps \<Longrightarrow> (\<And>a. parent st' a = parent st a) \<Longrightarrow> chain st' w ps"
  by (induction rule: chain.induct) (auto intro: chain.intros)

lemma chain_same_tree: "chain st w ps \<Longrightarrow> same_tree st st' \<Longrightarrow> chain st' w ps"
  by (erule chain_parent_cong) (rule same_tree_parent)

lemma chain_unique: "chain st w ps \<Longrightarrow> chain st w qs \<Longrightarrow> ps = qs"
proof (induction arbitrary: qs rule: chain.induct)
  case (chain_root st w)
  then show ?case by (auto elim: chain.cases)
next
  case (chain_step st w p ps)
  from chain_step.prems chain_step.hyps(1) obtain qs' where "qs = p # qs'" "chain st p qs'"
    by (auto elim: chain.cases)
  with chain_step.IH show ?case by simp
qed

lemma chain_ancestor:
  "chain st w ps \<Longrightarrow> a \<in> set ps \<Longrightarrow> \<exists>qs. chain st a qs \<and> length qs < length ps"
proof (induction rule: chain.induct)
  case (chain_root st w)
  then show ?case by simp
next
  case (chain_step st w p ps)
  show ?case
  proof (cases "a = p")
    case True
    with chain_step.hyps(2) show ?thesis by auto
  next
    case False
    with chain_step.prems have "a \<in> set ps" by simp
    with chain_step.IH obtain qs where "chain st a qs" "length qs < length ps" by blast
    then show ?thesis by auto
  qed
qed

lemma chain_acyclic: "chain st w ps \<Longrightarrow> w \<notin> set ps"
proof
  assume c: "chain st w ps" and "w \<in> set ps"
  then obtain qs where "chain st w qs" "length qs < length ps"
    using chain_ancestor by blast
  with c show False using chain_unique by fastforce
qed

lemma display_origin_loop_chain:
  "chain st w ps \<Longrightarrow>
   display_origin_loop st (parent st w) acc = Some (acc + sum_list (map (point st) ps))"
proof (induction arbitrary: acc rule: chain.induct)
  case (chain_root st w)
  then show ?case by (subst display_origin_loop.simps) simp
next
  case (chain_step st w p ps)
  then show ?case
    by (subst display_origin_loop.simps) (simp add: add.assoc)
qed

lemma local_to_display_loop_chain:
  "chain st w ps \<Longrightarrow>
   local_to_display_loop st (parent st w) acc = Some (acc + sum_list (map (point st) ps))"
proof (induction arbitrary: acc rule: chain.induct)
  case (chain_root st w)
  then show ?case by (subst local_to_display_loop.simps) simp
next
  case (chain_step st w p ps)
  then show ?case
    by (subst local_to_display_loop.simps) (simp add: add.assoc)
qed

lemma display_to_local_loop_chain:
  "chain st w ps \<Longrightarrow>
   display_to_local_loop st (parent st w) acc = Some (acc - sum_list (map (point st) ps))"
proof (induction arbitrary: acc rule: chain.induct)
  case (chain_root st w)
  then show ?case by (subst display_to_local_loop.simps) simp
next
  case (chain_step st w p ps)
  then show ?case
    by (subst display_to_local_loop.simps) (simp add: algebra_simps)
qed

lemma demo_chain:
  "chain demo_state 0 []" "chain demo_state 1 [0]" "chain demo_state 2 [1, 0]"
  "chain demo_state 3 [1, 0]"
proof -
  have p: "parent demo_state 0 = None" "parent demo_state 1 = Some 0"
    "parent demo_state 2 = Some 1" "parent demo_state 3 = Some 1"
    by (simp_all add: parent_def demo_state_def blank_def)
  show 0: "chain demo_state 0 []" by (rule chain_root) (rule p)
  show 1: "chain demo_state 1 [0]" by (rule chain_step) (rule p, rule 0)
  show "chain demo_state 2 [1, 0]" by (rule chain_step) (rule p, rule 1)
  show "chain demo_state 3 [1, 0]" by (rule chain_step) (rule p, rule 1)
qed

lemma demo_points:
  "point demo_state 0 = Point 0 0" "point demo_state (Suc 0) = Point 10 20"
  "point demo_state 2 = Point 0 0" "point demo_state 3 = Point 25 25"
  by (simp_all add: point_def demo_state_def blank_def)

text \<open>
  Claim C6. For every widget \<open>w\<close> whose parent chain ends at a root, with ancestors
  \<open>ps\<close>: \<open>display_origin\<close> returns the widget's own point plus the sum of the points
  of its ancestors; \<open>local_to_display\<close> returns for every point \<open>p\<close>, and
  \<open>display_to_local\<close> takes the result back to \<open>p\<close>; the other way round as well.
\<close>

theorem display_round_trip:
  assumes "chain st w ps"
  shows "display_origin st w = Some (point st w + sum_list (map (point st) ps)) \<and>
         (\<exists>d. local_to_display st w p = Some d \<and> display_to_local st w d = Some p) \<and>
         (\<exists>l. display_to_local st w p = Some l \<and> local_to_display st w l = Some p)"
proof -
  let ?S = "sum_list (map (point st) ps)"
  have fwd: "local_to_display st w q = Some (q + ?S + point st w)" for q
    using assms by (simp add: local_to_display_def local_to_display_loop_chain)
  have bwd: "display_to_local st w q = Some (q - ?S - point st w)" for q
    using assms by (simp add: display_to_local_def display_to_local_loop_chain)
  have "display_origin st w = Some (point st w + ?S)"
    using assms by (simp add: display_origin_def display_origin_loop_chain)
  moreover have "display_to_local st w (p + ?S + point st w) = Some p"
    by (simp add: bwd)
  moreover have "local_to_display st w (p - ?S - point st w) = Some p"
    by (simp add: fwd)
  ultimately show ?thesis using fwd [of p] bwd [of p] by simp
qed

theorem display_round_trip_witness:
  "chain demo_state 3 [1, 0] \<and>
   display_origin demo_state 3 = Some (Point 35 45) \<and>
   local_to_display demo_state 3 (Point 1 2) = Some (Point 36 47) \<and>
   display_to_local demo_state 3 (Point 36 47) = Some (Point 1 2)"
proof -
  note c = demo_chain(4)
  from display_round_trip [OF c, of "Point 1 2"]
  have o: "display_origin demo_state 3 = Some (Point 35 45)"
    and "\<exists>d. local_to_display demo_state 3 (Point 1 2) = Some d \<and>
             display_to_local demo_state 3 d = Some (Point 1 2)"
    by (simp_all add: demo_points plus_point_def zero_point_def)
  then obtain d where d: "local_to_display demo_state 3 (Point 1 2) = Some d"
    and rt: "display_to_local demo_state 3 d = Some (Point 1 2)" by blast
  have "local_to_display demo_state 3 (Point 1 2) = Some (Point 36 47)"
    by (simp add: local_to_display_def local_to_display_loop_chain [OF c] demo_points
        plus_point_def zero_point_def)
  with d rt c o show ?thesis by simp
qed

lemma color_group_chain:
  "chain st w ps \<Longrightarrow> color_group E st w cid grp = Some (spec_color E st (w # ps) cid grp)"
proof (induction rule: chain.induct)
  case (chain_root st w)
  then show ?case
    by (subst color_group.simps) (simp add: own_color_def split: option.split)
next
  case (chain_step st w p ps)
  then show ?case
    by (subst color_group.simps) (simp add: own_color_def split: option.split)
qed

lemma font_chain: "chain st w ps \<Longrightarrow> font st w = Some (spec_font st (w # ps))"
proof (induction rule: chain.induct)
  case (chain_root st w)
  then show ?case by (subst font.simps) (simp split: option.split)
next
  case (chain_step st w p ps)
  then show ?case by (subst font.simps) (simp split: option.split)
qed

text \<open>
  Claim C9. For every widget \<open>w\<close> whose parent chain ends at a root, with ancestors
  \<open>ps\<close>: \<open>color(id)\<close> returns; its group is chosen by the precedence disabled, active,
  checked, normal; the result is the entry of the first palette along \<open>w # ps\<close> that
  holds one for the colour and the group, else what the global palette answers if one
  is set, else what the palette of the theme answers. \<open>font()\<close> returns the first font
  set along \<open>w # ps\<close>, else the global font if one is set, else the font of the theme.
\<close>

theorem color_font_resolution:
  assumes "chain st w ps"
  shows "color E st w cid = Some (spec_color E st (w # ps) cid (state_group st w)) \<and>
         color_group E st w cid grp = Some (spec_color E st (w # ps) cid grp) \<and>
         font st w = Some (spec_font st (w # ps))"
  using assms
  by (simp add: color_def state_group_def Let_def color_group_chain font_chain)

theorem color_font_resolution_witness:
  "chain demo_state 2 [1, 0] \<and>
   color demo_env demo_state 2 ColorBg = Some 7 \<and>
   color demo_env demo_state 2 ColorText = Some 2 \<and>
   color demo_env (demo_state\<lparr>global_palette := Some [(ColorText, GroupNormal) \<mapsto> 5]\<rparr>) 2
     ColorText = Some 5 \<and>
   color demo_env (flags_set demo_state 2 Disabled) 2 ColorBg = Some 0 \<and>
   font demo_state 2 = Some ''sans'' \<and>
   font demo_state 4 = Some ''Courier New''"
proof -
  note c = demo_chain(3)
  let ?g = "demo_state\<lparr>global_palette := Some [(ColorText, GroupNormal) \<mapsto> 5]\<rparr>"
  let ?d = "flags_set demo_state 2 Disabled"
  note defs = state_group_def disabled_def active_def checked_def is_set_def own_color_def
    demo_state_def demo_env_def blank_def flags_set_def update_def
  have cg: "chain ?g 2 [1, 0]"
    by (rule chain_parent_cong [OF c]) (simp add: parent_def)
  have cd: "chain ?d 2 [1, 0]"
    by (rule chain_parent_cong [OF c]) (simp add: parent_def flags_set_def update_def)
  have c4: "chain demo_state 4 []"
    by (rule chain_root) (simp add: parent_def demo_state_def blank_def)
  have 1: "color demo_env demo_state 2 ColorBg = Some 7"
    using color_font_resolution [OF c, of demo_env ColorBg GroupNormal] by (simp add: defs)
  have 2: "color demo_env demo_state 2 ColorText = Some 2"
    using color_font_resolution [OF c, of demo_env ColorText GroupNormal] by (simp add: defs)
  have 3: "color demo_env ?g 2 ColorText = Some 5"
    using color_font_resolution [OF cg, of demo_env ColorText GroupNormal] by (simp add: defs)
  have 4: "color demo_env ?d 2 ColorBg = Some 0"
    using color_font_resolution [OF cd, of demo_env ColorBg GroupNormal] by (simp add: defs)
  have 5: "font demo_state 2 = Some ''sans''"
    using color_font_resolution [OF c, of demo_env ColorBg GroupNormal] by (simp add: defs)
  have 6: "font demo_state 4 = Some ''Courier New''"
    using color_font_resolution [OF c4, of demo_env ColorBg GroupNormal] by (simp add: defs)
  from c 1 2 3 4 5 6 show ?thesis by simp
qed

section \<open>Theorems: hide and show\<close>

lemma same_tree_fields:
  assumes "same_tree st st'"
  shows "m_box (widgets st' a) = m_box (widgets st a)"
    and "m_widget_flags (widgets st' a) = m_widget_flags (widgets st a)"
    and "m_in_draw (widgets st' a) = m_in_draw (widgets st a)"
    and "has_screen (widgets st' a) = has_screen (widgets st a)"
proof -
  from assms have e: "widgets st' a = (widgets st a)\<lparr>m_damage := m_damage (widgets st' a)\<rparr>"
    by (simp add: same_tree_def)
  show "m_box (widgets st' a) = m_box (widgets st a)"
    using arg_cong [OF e, of m_box] by simp
  show "m_widget_flags (widgets st' a) = m_widget_flags (widgets st a)"
    using arg_cong [OF e, of m_widget_flags] by simp
  show "m_in_draw (widgets st' a) = m_in_draw (widgets st a)"
    using arg_cong [OF e, of m_in_draw] by simp
  show "has_screen (widgets st' a) = has_screen (widgets st a)"
    using arg_cong [OF e, of has_screen] by simp
qed

lemma same_tree_accessors:
  assumes "same_tree st st'"
  shows "visible st' a = visible st a" and "box st' a = box st a"
    and "point st' a = point st a" and "is_set st' a f = is_set st a f"
    and "to_parent_rect st' a r = to_parent_rect st a r"
  using same_tree_fields [OF assms] same_tree_parent [OF assms]
  by (simp_all add: visible_def is_set_def box_def point_def to_parent_rect_def to_parent_def
      split: option.split)

lemma damage_trace_same_tree:
  "same_tree st st' \<Longrightarrow> damage_trace st' w r ps = damage_trace st w r ps"
  by (induction ps arbitrary: w r)
    (simp_all add: same_tree_accessors same_tree_fields)

lemma damage_trace_targets:
  "\<exists>es. damage_trace st w r ps = DamageCall w r # es \<and> call_target ` set es \<subseteq> set ps"
proof (induction ps arbitrary: w r)
  case Nil
  then show ?case by simp
next
  case (Cons p ps)
  from Cons [of p "to_parent_rect st w r"] show ?case
    by (auto simp: image_subset_iff)
qed

lemma add_damage_ok:
  "has_screen (widgets st w) \<Longrightarrow> \<not> m_in_draw (widgets st w) \<Longrightarrow>
   \<exists>st'. add_damage E st w r = Some (Inr st') \<and> same_tree st st' \<and> calls st' = calls st"
  by (auto simp: add_damage_def assert_fails_def ok_def same_tree_def update_def Let_def)

lemma damage_rect_chain:
  "chain st w ps \<Longrightarrow> \<forall>a\<in>set (w # ps). \<not> m_in_draw (widgets st a) \<Longrightarrow> same_tree st s \<Longrightarrow>
   \<exists>st'. damage_rect E s w r = Some (Inr st') \<and> same_tree s st' \<and>
         calls st' = calls s @ damage_trace st w r ps"
proof (induction arbitrary: s r rule: chain.induct)
  case (chain_root st w)
  let ?s0 = "record_call (DamageCall w r) s"
  have t0: "same_tree st ?s0" using chain_root.prems(2) same_tree_record_call
    by (rule same_tree_trans)
  have par: "parent s w = None"
    using chain_root.hyps same_tree_parent [OF chain_root.prems(2)] by simp
  show ?case
  proof (cases "\<not> rect_empty r \<and> visible s w \<and> has_screen (widgets s w)")
    case True
    with chain_root.prems have "has_screen (widgets ?s0 w)" "\<not> m_in_draw (widgets ?s0 w)"
      by (simp_all add: same_tree_fields)
    from add_damage_ok [OF this, of E r] obtain st' where
      "add_damage E ?s0 w r = Some (Inr st')" "same_tree ?s0 st'" "calls st' = calls ?s0"
      by blast
    with True show ?thesis
      using same_tree_trans [OF same_tree_record_call]
      by (simp add: damage_rect_unfold [of E s w r] Let_def)
  next
    case False
    with par show ?thesis
      by (auto simp: damage_rect_unfold [of E s w r] Let_def ok_def)
  qed
next
  case (chain_step st w p ps)
  let ?s0 = "record_call (DamageCall w r) s"
  note st_s = chain_step.prems(2)
  have t0: "same_tree st ?s0" using st_s same_tree_record_call by (rule same_tree_trans)
  have par: "parent s w = Some p"
    using chain_step.hyps(1) same_tree_parent [OF st_s] by simp
  have acc: "visible s w = visible st w" "has_screen (widgets s w) = has_screen (widgets st w)"
    "to_parent_rect s w r = to_parent_rect st w r"
    using same_tree_accessors [OF st_s] same_tree_fields [OF st_s] by simp_all
  show ?case
  proof (cases "rect_empty r \<or> \<not> visible s w")
    case True
    then show ?thesis
      using acc by (auto simp: damage_rect_unfold [of E s w r] Let_def ok_def)
  next
    case ne: False
    show ?thesis
    proof (cases "has_screen (widgets s w)")
      case True
      with chain_step.prems have "has_screen (widgets ?s0 w)" "\<not> m_in_draw (widgets ?s0 w)"
        by (simp_all add: same_tree_fields)
      from add_damage_ok [OF this, of E r] obtain st' where
        "add_damage E ?s0 w r = Some (Inr st')" "same_tree ?s0 st'" "calls st' = calls ?s0"
        by blast
      with True ne show ?thesis
        using same_tree_trans [OF same_tree_record_call] acc
        by (simp add: damage_rect_unfold [of E s w r] Let_def)
    next
      case False
      from chain_step.prems(1) have "\<forall>a\<in>set (p # ps). \<not> m_in_draw (widgets st a)" by simp
      from chain_step.IH [OF this t0, of "to_parent_rect st w r"] obtain st' where
        d: "damage_rect E ?s0 p (to_parent_rect st w r) = Some (Inr st')"
        and t: "same_tree ?s0 st'"
        and c: "calls st' = calls ?s0 @ damage_trace st p (to_parent_rect st w r) ps"
        by blast
      from t have "same_tree s st'" using same_tree_trans [OF same_tree_record_call] by blast
      with d c False ne par acc show ?thesis
        by (simp add: damage_rect_unfold [of E s w r] Let_def)
    qed
  qed
qed

lemma flags_clear_set:
  "\<not> is_set s w f \<Longrightarrow> flags_clear (flags_set s w f) w f = s"
  by (simp add: flags_clear_def flags_set_def update_def is_set_def)

text \<open>
  Claim C7. Let \<open>w\<close> be a visible widget whose parent chain \<open>ps\<close> ends at a root, let
  no draw be in progress on \<open>w\<close> or an ancestor, and let nothing be registered on the
  two signals of \<open>w\<close>. Then \<open>hide()\<close> returns with \<open>w\<close> invisible, \<open>show()\<close> after it
  returns with \<open>w\<close> visible again, and the damage calls made by the two are, in this
  order, the calls of one damage of the box of \<open>w\<close> on a visible \<open>w\<close> (the call on
  \<open>w\<close> and its forwarding along the ancestors) and the same calls once more: the damage
  of \<open>hide\<close> ran before the flag was set and the damage of \<open>show\<close> after it was cleared.
  Exactly two of these calls are made on \<open>w\<close>, both with the box of \<open>w\<close>.
\<close>

theorem hide_show_damage:
  assumes "chain st w ps" and "visible st w"
    and "\<forall>a\<in>set (w # ps). \<not> m_in_draw (widgets st a)"
    and "on_hide E w = ok" and "on_show E w = ok"
  shows "\<exists>st1 st2. hide E st w = Some (Inr st1) \<and> \<not> visible st1 w \<and>
           show_widget E st1 w = Some (Inr st2) \<and> visible st2 w \<and>
           calls st2 = calls st @ damage_trace st w (box st w) ps
                                @ damage_trace st w (box st w) ps \<and>
           filter (\<lambda>c. call_target c = w)
               (damage_trace st w (box st w) ps @ damage_trace st w (box st w) ps)
             = [DamageCall w (box st w), DamageCall w (box st w)]"
proof -
  let ?b = "box st w"
  let ?tr = "damage_trace st w ?b ps"
  from damage_rect_chain [OF assms(1,3) same_tree_refl, of E ?b] obtain sa where
    da: "damage E st w = Some (Inr sa)" and ta: "same_tree st sa"
    and ca: "calls sa = calls st @ ?tr"
    by (auto simp: damage_def)
  let ?st1 = "flags_set sa w Invisible"
  have vis_sa: "visible sa w" using assms(2) same_tree_accessors [OF ta] by simp
  have h: "hide E st w = Some (Inr ?st1)"
    using assms(2,4) da by (simp add: hide_def visible_def ok_def)
  have inv1: "\<not> visible ?st1 w"
    by (simp add: visible_def is_set_def flags_set_def update_def)
  have clr: "flags_clear ?st1 w Invisible = sa"
    using vis_sa by (simp add: flags_clear_set visible_def)
  have "box sa w = ?b" using same_tree_accessors [OF ta] by simp
  with damage_rect_chain [OF assms(1,3) ta, of E ?b] obtain sd where
    dd: "damage E sa w = Some (Inr sd)" and td: "same_tree sa sd"
    and cd: "calls sd = calls sa @ ?tr"
    by (auto simp: damage_def)
  have s: "show_widget E ?st1 w = Some (Inr sd)"
    using inv1 clr dd assms(5) by (simp add: show_widget_def visible_def ok_def)
  have vis_sd: "visible sd w" using vis_sa same_tree_accessors [OF td] by simp
  obtain es where es: "?tr = DamageCall w ?b # es" "call_target ` set es \<subseteq> set ps"
    using damage_trace_targets by blast
  have "w \<notin> set ps" using assms(1) by (rule chain_acyclic)
  with es(2) have "filter (\<lambda>c. call_target c = w) es = []"
    by (auto simp: filter_empty_conv)
  with es(1) have "filter (\<lambda>c. call_target c = w) (?tr @ ?tr) = [DamageCall w ?b, DamageCall w ?b]"
    by simp
  with h inv1 s vis_sd ca cd show ?thesis by simp
qed

theorem hide_show_damage_witness:
  "chain demo_state 2 [1, 0] \<and> visible demo_state 2 \<and>
   \<not> m_in_draw (widgets demo_state 2) \<and> \<not> m_in_draw (widgets demo_state 1) \<and>
   \<not> m_in_draw (widgets demo_state 0) \<and>
   on_hide demo_env 2 = ok \<and> on_show demo_env 2 = ok \<and>
   (\<exists>st1 st2. hide demo_env demo_state 2 = Some (Inr st1) \<and>
      show_widget demo_env st1 2 = Some (Inr st2) \<and>
      calls st2 = [DamageCall 2 (Rect (Point 0 0) (Size 50 50)),
                   DamageCall 1 (Rect (Point 10 20) (Size 50 50)),
                   DamageCall 0 (Rect (Point 10 20) (Size 50 50)),
                   DamageCall 2 (Rect (Point 0 0) (Size 50 50)),
                   DamageCall 1 (Rect (Point 10 20) (Size 50 50)),
                   DamageCall 0 (Rect (Point 10 20) (Size 50 50))])"
proof -
  note c = demo_chain(3)
  have v: "visible demo_state 2"
    by (simp add: visible_def is_set_def demo_state_def blank_def)
  have nd: "\<forall>a\<in>set [2, 1, 0]. \<not> m_in_draw (widgets demo_state a)"
    by (simp add: demo_state_def blank_def)
  have oh: "on_hide demo_env 2 = ok" and os: "on_show demo_env 2 = ok"
    by (auto simp: demo_env_def ok_def)
  have b: "box demo_state 2 = Rect (Point 0 0) (Size 50 50)"
    by (simp add: box_def demo_state_def blank_def)
  have tr: "damage_trace demo_state 2 (Rect (Point 0 0) (Size 50 50)) [1, 0]
              = [DamageCall 2 (Rect (Point 0 0) (Size 50 50)),
                 DamageCall 1 (Rect (Point 10 20) (Size 50 50)),
                 DamageCall 0 (Rect (Point 10 20) (Size 50 50))]"
    by (simp add: rect_empty_def visible_def is_set_def to_parent_rect_def to_parent_def
        parent_def point_def demo_state_def blank_def plus_point_def)
  have e: "calls demo_state = []" by (simp add: demo_state_def)
  have nd': "\<not> m_in_draw (widgets demo_state 2)" "\<not> m_in_draw (widgets demo_state 1)"
    "\<not> m_in_draw (widgets demo_state 0)"
    using nd by simp_all
  from hide_show_damage [OF c v nd oh os] c v nd' oh os show ?thesis
    unfolding b tr e by auto
qed

section \<open>Theorems: event dispatch\<close>









section \<open>Theorems: sprite addressing\<close>

lemma int32_id: "in_int32 x \<Longrightarrow> int32 x = x"
  by (simp add: int32_def in_int32_def)

lemma pan_position_nowrap:
  assumes "offset_fits fx fw i" and "fx + i * fw + fw < W"
  shows "pan_position W fx fy fw fh i = Inr (fx + i * fw, fy)"
  using assms by (simp add: pan_position_def offset_fits_def int32_id Let_def)

lemma pan_position_wrap:
  assumes "offset_fits fx fw i" and "row_fits W fx fy fw fh i"
    and "fx + i * fw + fw \<ge> W" and "W \<noteq> 0"
  shows "pan_position W fx fy fw fh i =
     Inr ((fx + i * fw) smod W, ((fx + i * fw) sdiv W) * (fh + fy))"
proof -
  let ?x = "fx + i * fw"
  let ?q = "?x sdiv W"
  from assms(1) have x: "int32 (fx + int32 (i * fw)) = ?x" "int32 (?x + fw) = ?x + fw"
    by (simp_all add: offset_fits_def int32_id)
  from assms(2) have q: "int32 ?q = ?q" "int32 (?q * fy) = ?q * fy"
    "int32 (?q * fh) = ?q * fh" "int32 (?q * fy + ?q * fh) = ?q * fy + ?q * fh"
    by (simp_all add: row_fits_def Let_def int32_id)
  have e: "?q * fy + ?q * fh = ?q * (fh + fy)" by (simp add: algebra_simps)
  from assms(3,4) have "pan_position W fx fy fw fh i = Inr (?x smod W, ?q * fy + ?q * fh)"
    by (simp add: pan_position_def Let_def x q)
  then show ?thesis unfolding e .
qed

lemma sdiv_smod_nonneg:
  assumes "0 \<le> (x::int)" and "0 < W"
  shows "x smod W = x mod W" and "x sdiv W = x div W"
  using assms
  by (cases "x = 0"; simp add: signed_modulo_int_def signed_divide_int_def)+

text \<open>
  Claim C3, as the code has it. The offset of frame \<open>i\<close> is
  \<open>x = framex + i * frame_w\<close>: it starts at the strip's base offset \<open>framex\<close>. As long
  as the 32-bit arithmetic does not overflow:
  \<^item> when \<open>x + frame_w < sheet_w\<close> the frame is not wrapped: \<open>pan_x = x\<close> and
    \<open>pan_y\<close> is the base offset \<open>framey\<close>;
  \<^item> when \<open>x + frame_w > sheet_w\<close> and \<open>sheet_w\<close> is not 0, \<open>pan_x = x % sheet_w\<close> and
    \<open>pan_y = (x / sheet_w) * (frame_h + framey)\<close>, with the \<open>%\<close> and \<open>/\<close> of C++;
  \<^item> these are \<open>x mod sheet_w\<close> and \<open>x div sheet_w\<close> when \<open>x\<close> is not negative and
    \<open>sheet_w\<close> is positive.
  Nothing is said of a frame that ends exactly at the right edge of the sheet
  (\<open>x + frame_w = sheet_w\<close>).
\<close>

theorem sprite_pan_position:
  assumes "offset_fits fx fw i"
  shows "(fx + i * fw + fw < sheet_w \<longrightarrow>
            pan_position sheet_w fx fy fw fh i = Inr (fx + i * fw, fy)) \<and>
         (fx + i * fw + fw > sheet_w \<and> sheet_w \<noteq> 0 \<and> row_fits sheet_w fx fy fw fh i \<longrightarrow>
            pan_position sheet_w fx fy fw fh i =
              Inr ((fx + i * fw) smod sheet_w,
                   ((fx + i * fw) sdiv sheet_w) * (fh + fy))) \<and>
         (0 \<le> fx + i * fw \<and> 0 < sheet_w \<longrightarrow>
            (fx + i * fw) smod sheet_w = (fx + i * fw) mod sheet_w \<and>
            (fx + i * fw) sdiv sheet_w = (fx + i * fw) div sheet_w)"
proof (intro conjI impI)
  assume "fx + i * fw + fw < sheet_w"
  with assms show "pan_position sheet_w fx fy fw fh i = Inr (fx + i * fw, fy)"
    by (rule pan_position_nowrap)
next
  assume a: "fx + i * fw + fw > sheet_w \<and> sheet_w \<noteq> 0 \<and> row_fits sheet_w fx fy fw fh i"
  then have "fx + i * fw + fw \<ge> sheet_w" by simp
  with assms a show "pan_position sheet_w fx fy fw fh i =
      Inr ((fx + i * fw) smod sheet_w, ((fx + i * fw) sdiv sheet_w) * (fh + fy))"
    by (simp add: pan_position_wrap)
next
  assume "0 \<le> fx + i * fw \<and> 0 < sheet_w"
  then show "(fx + i * fw) smod sheet_w = (fx + i * fw) mod sheet_w"
    by (simp add: sdiv_smod_nonneg)
next
  assume "0 \<le> fx + i * fw \<and> 0 < sheet_w"
  then show "(fx + i * fw) sdiv sheet_w = (fx + i * fw) div sheet_w"
    by (simp add: sdiv_smod_nonneg)
qed

theorem sprite_pan_position_witness:
  "offset_fits 0 100 5 \<and> row_fits 300 0 0 100 64 5 \<and> offset_fits 0 100 0 \<and>
   pan_position 300 0 0 100 64 5 = Inr (200, 1 * 64) \<and>
   (500::int) smod 300 = 500 mod 300 \<and> (500::int) sdiv 300 = 500 div 300 \<and>
   pan_position 300 0 10 100 50 0 = Inr (0, 10) \<and>
   hw_show_frame \<lparr>hs_image_w = 300, hs_frame_w = 100, hs_frame_h = 64,
       hs_strip = \<lparr>framecount = 6, framex = 0, framey = 0\<rparr>, hs_index = 0,
       plane_pan_pos = (0, 0), plane_pan_size = (100, 64), plane_applied = 0\<rparr> 5
     = Inr \<lparr>hs_image_w = 300, hs_frame_w = 100, hs_frame_h = 64,
       hs_strip = \<lparr>framecount = 6, framex = 0, framey = 0\<rparr>, hs_index = 5,
       plane_pan_pos = (200, 64), plane_pan_size = (100, 64), plane_applied = 1\<rparr> \<and>
   sw_draw \<lparr>ss_image_w = 300, ss_framex = 0, ss_framey = 0, ss_frame_w = 100,
       ss_frame_h = 64, ss_index = 5, ss_framecount = 6, ss_box_point = (7, 9)\<rparr>
     = Inr (DrawImage (200, 64, 100, 64) (7, 9))"
proof -
  have o5: "offset_fits 0 100 5" and o0: "offset_fits 0 100 0"
    by (simp_all add: offset_fits_def in_int32_def)
  have r5: "row_fits 300 0 0 100 64 5"
    by (simp add: row_fits_def in_int32_def Let_def)
  from sprite_pan_position [OF o5, of 300 0 64] r5
  have w: "pan_position 300 0 0 100 64 5 = Inr (200, 64)"
    and m: "(500::int) smod 300 = 500 mod 300" "(500::int) sdiv 300 = 500 div 300"
    by simp_all
  from sprite_pan_position [OF o0, of 300 10 50]
  have n: "pan_position 300 0 10 100 50 0 = Inr (0, 10)" by simp
  from o5 r5 o0 w m n show ?thesis
    by (simp add: hw_show_frame_def sw_draw_def)
qed

text \<open>
  Claim C3 as the specification words it does not hold.
  \<^item> With a base offset \<open>framey = 10\<close>, frame height 50, sheet width 300 and frame
    width 100, frame 0 is not wrapped and its \<open>pan_y\<close> is the base offset 10, not
    \<open>((0 * 100) div 300) * (50 + 10) = 0\<close>.
  \<^item> With a base offset \<open>framex = 50\<close>, the \<open>pan_x\<close> of frame 0 is 50, not
    \<open>(0 * 100) mod 300 = 0\<close>.
  \<^item> With a sheet of width 0 the program divides by zero.
  \<^item> At index 30000000 the product \<open>index * frame_w\<close> overflows the 32-bit \<open>int\<close>:
    the position is \<open>(-1294967296, 10)\<close>, not
    \<open>(3000000000 mod 300, (3000000000 div 300) * (50 + 10))\<close>.
  \<^item> On a sheet of width 2 with frames of width 2 and height 100000, at index 100000
    the product of the row and the frame height overflows: \<open>pan_y\<close> is 1410065408,
    not \<open>(200000 div 2) * (100000 + 0)\<close>.
\<close>

theorem sprite_pan_formula_counterexample:
  "pan_position 300 0 10 100 50 0 = Inr (0, 10) \<and>
   pan_position 300 0 10 100 50 0
     \<noteq> Inr ((0 * 100) mod 300, ((0 * 100) div 300) * (50 + 10)) \<and>
   pan_position 300 50 0 100 50 0 = Inr (50, 0) \<and>
   pan_position 300 50 0 100 50 0
     \<noteq> Inr ((0 * 100) mod 300, ((0 * 100) div 300) * (50 + 0)) \<and>
   pan_position 0 0 0 100 50 0 = Inl DivisionByZero \<and>
   pan_position 300 0 10 100 50 30000000 = Inr (- 1294967296, 10) \<and>
   pan_position 300 0 10 100 50 30000000
     \<noteq> Inr ((30000000 * 100) mod 300, ((30000000 * 100) div 300) * (50 + 10)) \<and>
   pan_position 2 0 0 2 100000 100000 = Inr (0, 1410065408) \<and>
   pan_position 2 0 0 2 100000 100000
     \<noteq> Inr ((100000 * 2) mod 2, ((100000 * 2) div 2) * (100000 + 0))"
  by (simp add: pan_position_def int32_def)

end
